theory Spec2Isabelle
  imports Complex_Main
begin

section \<open>Lead scraping route: a shallow embedding of \<open>src/app/api/scrape/route.ts\<close>\<close>

text \<open>
  Strings are byte lists (\<open>string\<close>); the character classes of the source's regular
  expressions (\<open>\w\<close>, \<open>\d\<close>, \<open>\s\<close>) and \<open>trim\<close>, \<open>toLowerCase\<close> are modelled on ASCII.
  The value \<open>undefined\<close> of an optional string is \<open>None\<close>. The fields of the request
  body are strings or absent. Everything outside the route (the two search engines, the
  random number generator, the console) is a \<open>world\<close> that the functions take and
  return; a function that can throw returns \<open>Inl\<close> of the thrown value.
\<close>

subsection \<open>The data model\<close>

record lead =
  name :: string
  url :: string
  description :: string
  contact :: "string option"

subsection \<open>JavaScript string operations used by the route\<close>

definition is_space :: "char \<Rightarrow> bool" where
  "is_space c \<longleftrightarrow> c = CHR '' '' \<or> c = CHR 0x09 \<or> c = CHR 0x0A \<or> c = CHR 0x0B
     \<or> c = CHR 0x0C \<or> c = CHR 0x0D"

definition is_digit :: "char \<Rightarrow> bool" where
  "is_digit c \<longleftrightarrow> 48 \<le> (of_char c :: nat) \<and> (of_char c :: nat) \<le> 57"

definition is_lower :: "char \<Rightarrow> bool" where
  "is_lower c \<longleftrightarrow> 97 \<le> (of_char c :: nat) \<and> (of_char c :: nat) \<le> 122"

definition is_upper :: "char \<Rightarrow> bool" where
  "is_upper c \<longleftrightarrow> 65 \<le> (of_char c :: nat) \<and> (of_char c :: nat) \<le> 90"

text \<open>The class \<open>\w\<close>: letters, digits and the underscore.\<close>

definition is_word :: "char \<Rightarrow> bool" where
  "is_word c \<longleftrightarrow> is_lower c \<or> is_upper c \<or> is_digit c \<or> c = CHR ''_''"

definition trim :: "string \<Rightarrow> string" where
  "trim s = rev (dropWhile is_space (rev (dropWhile is_space s)))"

definition toLowerCase :: "string \<Rightarrow> string" where
  "toLowerCase s = map (\<lambda>c. if is_upper c then char_of (of_char c + (32 :: nat)) else c) s"

definition startsWith :: "string \<Rightarrow> string \<Rightarrow> bool" where
  "startsWith s p \<longleftrightarrow> take (length p) s = p"

fun includes_str :: "string \<Rightarrow> string \<Rightarrow> bool" where
  "includes_str [] k = (k = [])"
| "includes_str (c # cs) k = (startsWith (c # cs) k \<or> includes_str cs k)"

text \<open>\<open>s.replace(/\s+/g, '-')\<close>: every maximal run of whitespace becomes one hyphen.\<close>

function replace_spaces :: "string \<Rightarrow> string" where
  "replace_spaces [] = []"
| "replace_spaces (c # cs) =
     (if is_space c then CHR ''-'' # replace_spaces (dropWhile is_space cs)
      else c # replace_spaces cs)"
  by pat_completeness auto
termination
  by (relation "measure length") (auto simp: length_dropWhile_le le_imp_less_Suc)

text \<open>\<open>s.replace(/[^a-z0-9]/g, '')\<close>: only lower-case letters and digits stay.\<close>

definition strip_non_alnum :: "string \<Rightarrow> string" where
  "strip_non_alnum s = filter (\<lambda>c. is_lower c \<or> is_digit c) s"

text \<open>The decimal rendering of a loop index inside a template literal.\<close>

definition digit_char :: "nat \<Rightarrow> char" where
  "digit_char d = char_of (48 + d)"

fun string_of_nat :: "nat \<Rightarrow> string" where
  "string_of_nat n =
     (if n < 10 then [digit_char n] else string_of_nat (n div 10) @ [digit_char (n mod 10)])"

text \<open>
  \<open>encodeURIComponent\<close> on a UTF-8 byte string: the unreserved characters stay, every
  other byte becomes \<open>%XX\<close> in upper-case hexadecimal.
\<close>

definition hex_char :: "nat \<Rightarrow> char" where
  "hex_char d = (if d < 10 then char_of (48 + d) else char_of (55 + d))"

definition is_unreserved :: "char \<Rightarrow> bool" where
  "is_unreserved c \<longleftrightarrow> is_lower c \<or> is_upper c \<or> is_digit c \<or> c \<in> set ''-_.!~*'()''"

definition encodeURIComponent :: "string \<Rightarrow> string" where
  "encodeURIComponent s =
     concat (map (\<lambda>c. if is_unreserved c then [c]
                       else [CHR ''%'', hex_char ((of_char c :: nat) div 16),
                             hex_char ((of_char c :: nat) mod 16)]) s)"

subsection \<open>Regular expressions and \<open>String.prototype.match\<close>\<close>

text \<open>
  Both patterns of the source are sequences of character classes, each with a quantifier
  (one, \<open>?\<close>, \<open>+\<close> or \<open>{n}\<close>). The matcher backtracks as the JavaScript one does: a
  greedy quantifier tries the longest run first, and \<open>match\<close> without the \<open>g\<close> flag
  returns the first match found from the leftmost possible start.
\<close>

datatype quant = One | Opt | Plus | Times nat

type_synonym atom = "(char \<Rightarrow> bool) \<times> quant"

definition counts :: "(char \<Rightarrow> bool) \<Rightarrow> quant \<Rightarrow> string \<Rightarrow> nat list" where
  "counts p q s =
     (let k = length (takeWhile p s) in
      case q of
        One \<Rightarrow> if 1 \<le> k then [1] else []
      | Opt \<Rightarrow> if 1 \<le> k then [1, 0] else [0]
      | Plus \<Rightarrow> rev [1..<Suc k]
      | Times n \<Rightarrow> if n \<le> k then [n] else [])"

fun first_some :: "('a \<Rightarrow> 'b option) \<Rightarrow> 'a list \<Rightarrow> 'b option" where
  "first_some f [] = None"
| "first_some f (x # xs) = (case f x of Some y \<Rightarrow> Some y | None \<Rightarrow> first_some f xs)"

fun match_here :: "atom list \<Rightarrow> string \<Rightarrow> string option" where
  "match_here [] s = Some []"
| "match_here ((p, q) # rs) s =
     first_some (\<lambda>k. map_option (\<lambda>m. take k s @ m) (match_here rs (drop k s))) (counts p q s)"

fun str_match :: "atom list \<Rightarrow> string \<Rightarrow> string option" where
  "str_match re [] = match_here re []"
| "str_match re (c # cs) =
     (case match_here re (c # cs) of Some m \<Rightarrow> Some m | None \<Rightarrow> str_match re cs)"

text \<open>\<open>/[\w.-]+@[\w.-]+\.\w+/\<close>\<close>

definition email_char :: "char \<Rightarrow> bool" where
  "email_char c \<longleftrightarrow> is_word c \<or> c = CHR ''.'' \<or> c = CHR ''-''"

definition emailPattern :: "atom list" where
  "emailPattern =
     [(email_char, Plus), (\<lambda>c. c = CHR ''@'', One), (email_char, Plus),
      (\<lambda>c. c = CHR ''.'', One), (is_word, Plus)]"

text \<open>\<open>/\(?\d{3}\)?[-.\s]?\d{3}[-.\s]?\d{4}/\<close>\<close>

definition phone_sep :: "char \<Rightarrow> bool" where
  "phone_sep c \<longleftrightarrow> c = CHR ''-'' \<or> c = CHR ''.'' \<or> is_space c"

definition phonePattern :: "atom list" where
  "phonePattern =
     [(\<lambda>c. c = CHR ''('', Opt), (is_digit, Times 3), (\<lambda>c. c = CHR '')'', Opt),
      (phone_sep, Opt), (is_digit, Times 3), (phone_sep, Opt), (is_digit, Times 4)]"

text \<open>
  \<open>a || b\<close> on optional strings: the left operand when it is truthy (defined and
  non-empty), else the right one.
\<close>

definition js_or :: "string option \<Rightarrow> string option \<Rightarrow> string option" where
  "js_or a b = (case a of Some x \<Rightarrow> if x \<noteq> [] then Some x else b | None \<Rightarrow> b)"

text \<open>
  The contact of a lead, as both adapters compute it from the snippet:
  \<open>emailMatch?.[0] || phoneMatch?.[0]\<close>.
\<close>

definition contact_of :: "string \<Rightarrow> string option" where
  "contact_of snippet =
     (let emailMatch = str_match emailPattern snippet;
          phoneMatch = str_match phonePattern snippet
      in js_or emailMatch phoneMatch)"

subsection \<open>The outside world\<close>

text \<open>
  A thrown value carries its message. A fetched page is given as the list of the
  elements that the adapter's result selector matches, in document order, each with
  what the adapter reads from it: the text of the title link, its \<open>href\<close> attribute
  (absent when there is none) and the text of the snippet.
\<close>

datatype error = Error string

record element =
  title_text :: string
  href :: "string option"
  snippet_text :: string

datatype body = Text_throws error | Load_throws error | Html "element list"

datatype fetched = Fetch_throws error | Response bool body

text \<open>
  The world answers each requested address, records the requests made, supplies the
  values of \<open>Math.random()\<close> one after the other, and collects the console output.
  A draw is a rational number, and \<open>Math.floor(r * n)\<close> is the floor of the exact
  product: for the draws of \<open>Math.random()\<close>, which lie in the interval from 0
  (inclusive) to 1 (exclusive), both give an index from 0 to \<open>n - 1\<close>.
\<close>

record world =
  http :: "string \<Rightarrow> fetched"
  requests :: "string list"
  random :: "nat \<Rightarrow> rat"
  drawn :: nat
  console :: "string list"

definition fetch_url :: "string \<Rightarrow> world \<Rightarrow> fetched \<times> world" where
  "fetch_url u w = (http w u, w\<lparr>requests := requests w @ [u]\<rparr>)"

definition Math_random :: "world \<Rightarrow> rat \<times> world" where
  "Math_random w = (random w (drawn w), w\<lparr>drawn := Suc (drawn w)\<rparr>)"

definition console_error :: "string \<Rightarrow> world \<Rightarrow> world" where
  "console_error msg w = w\<lparr>console := console w @ [msg]\<rparr>"

subsection \<open>\<open>scrapeFromDuckDuckGo\<close>\<close>

text \<open>\<open>attr('href') || ''\<close>\<close>

definition or_empty :: "string option \<Rightarrow> string" where
  "or_empty a = (case a of Some x \<Rightarrow> x | None \<Rightarrow> [])"

definition search_query :: "string \<Rightarrow> string \<Rightarrow> string" where
  "search_query industry location =
     (if location \<noteq> [] then industry @ '' in '' @ location else industry)"

definition duckduckgo_searchUrl :: "string \<Rightarrow> string \<Rightarrow> string" where
  "duckduckgo_searchUrl industry location =
     ''https://html.duckduckgo.com/html/?q='' @ encodeURIComponent (search_query industry location)"

text \<open>
  The callback of \<open>$('.result').each\<close> on one element, past its index test: the leads
  it pushes (one, or none when the title or the link is empty).
\<close>

definition duckduckgo_push :: "element \<Rightarrow> lead list" where
  "duckduckgo_push e =
     (let title = trim (title_text e);
          link = or_empty (href e);
          snippet = trim (snippet_text e)
      in if title \<noteq> [] \<and> link \<noteq> [] then
           [\<lparr>name = title,
             url = (if startsWith link ''http'' then link else ''https://'' @ link),
             description = (if snippet \<noteq> [] then snippet else ''No description available''),
             contact = contact_of snippet\<rparr>]
         else [])"

text \<open>
  The iteration with the index \<open>i\<close> and the leads pushed so far; \<open>return false\<close> at
  index 20 ends it.
\<close>

fun duckduckgo_each :: "nat \<Rightarrow> element list \<Rightarrow> lead list \<Rightarrow> lead list" where
  "duckduckgo_each i [] leads = leads"
| "duckduckgo_each i (e # es) leads =
     (if i \<ge> 20 then leads else duckduckgo_each (Suc i) es (leads @ duckduckgo_push e))"

definition scrapeFromDuckDuckGo_try ::
  "string \<Rightarrow> string \<Rightarrow> world \<Rightarrow> (error + lead list) \<times> world" where
  "scrapeFromDuckDuckGo_try industry location w =
     (let (response, w1) = fetch_url (duckduckgo_searchUrl industry location) w in
      case response of
        Fetch_throws e \<Rightarrow> (Inl e, w1)
      | Response ok b \<Rightarrow>
          if \<not> ok then (Inl (Error ''Failed to fetch search results''), w1)
          else (case b of
                  Text_throws e \<Rightarrow> (Inl e, w1)
                | Load_throws e \<Rightarrow> (Inl e, w1)
                | Html els \<Rightarrow> (Inr (duckduckgo_each 0 els []), w1)))"

definition scrapeFromDuckDuckGo ::
  "string \<Rightarrow> string \<Rightarrow> world \<Rightarrow> (error + lead list) \<times> world" where
  "scrapeFromDuckDuckGo industry location w =
     (case scrapeFromDuckDuckGo_try industry location w of
        (Inl e, w1) \<Rightarrow> (Inr [], console_error ''DuckDuckGo scraping error:'' w1)
      | (Inr leads, w1) \<Rightarrow> (Inr leads, w1))"

subsection \<open>\<open>scrapeFromBing\<close>\<close>

definition bing_searchUrl :: "string \<Rightarrow> string \<Rightarrow> string" where
  "bing_searchUrl industry location =
     ''https://www.bing.com/search?q='' @ encodeURIComponent (search_query industry location)"

text \<open>The callback of \<open>$('.b_algo').each\<close> on one element: the link is stored as it is.\<close>

definition bing_push :: "element \<Rightarrow> lead list" where
  "bing_push e =
     (let title = trim (title_text e);
          link = or_empty (href e);
          snippet = trim (snippet_text e)
      in if title \<noteq> [] \<and> link \<noteq> [] then
           [\<lparr>name = title,
             url = link,
             description = (if snippet \<noteq> [] then snippet else ''No description available''),
             contact = contact_of snippet\<rparr>]
         else [])"

fun bing_each :: "nat \<Rightarrow> element list \<Rightarrow> lead list \<Rightarrow> lead list" where
  "bing_each i [] leads = leads"
| "bing_each i (e # es) leads =
     (if i \<ge> 15 then leads else bing_each (Suc i) es (leads @ bing_push e))"

definition scrapeFromBing_try ::
  "string \<Rightarrow> string \<Rightarrow> world \<Rightarrow> (error + lead list) \<times> world" where
  "scrapeFromBing_try industry location w =
     (let (response, w1) = fetch_url (bing_searchUrl industry location) w in
      case response of
        Fetch_throws e \<Rightarrow> (Inl e, w1)
      | Response ok b \<Rightarrow>
          if \<not> ok then (Inl (Error ''Failed to fetch from Bing''), w1)
          else (case b of
                  Text_throws e \<Rightarrow> (Inl e, w1)
                | Load_throws e \<Rightarrow> (Inl e, w1)
                | Html els \<Rightarrow> (Inr (bing_each 0 els []), w1)))"

definition scrapeFromBing ::
  "string \<Rightarrow> string \<Rightarrow> world \<Rightarrow> (error + lead list) \<times> world" where
  "scrapeFromBing industry location w =
     (case scrapeFromBing_try industry location w of
        (Inl e, w1) \<Rightarrow> (Inr [], console_error ''Bing scraping error:'' w1)
      | (Inr leads, w1) \<Rightarrow> (Inr leads, w1))"

subsection \<open>\<open>generateDemoLeads\<close>\<close>

definition default_pattern :: "string list" where
  "default_pattern = [''Business'', ''Company'', ''Services'', ''Solutions'', ''Group'']"

text \<open>The entries of \<open>industryPatterns\<close>, in the order \<open>Object.entries\<close> lists them.\<close>

definition industryPatterns :: "(string \<times> string list) list" where
  "industryPatterns =
     [(''restaurant'', [''Bistro'', ''Cafe'', ''Grill'', ''Kitchen'', ''Diner'', ''Eatery'']),
      (''dentist'', [''Dental Care'', ''Dentistry'', ''Dental Clinic'', ''Dental Associates'']),
      (''lawyer'', [''Law Firm'', ''Legal Services'', ''Attorney'', ''Legal Group'']),
      (''realtor'', [''Real Estate'', ''Realty'', ''Properties'', ''Real Estate Group'']),
      (''plumber'', [''Plumbing'', ''Plumbing Services'', ''Plumbing Solutions'']),
      (''salon'', [''Hair Salon'', ''Beauty Salon'', ''Spa'', ''Beauty Bar'']),
      (''gym'', [''Fitness Center'', ''Gym'', ''Health Club'', ''Fitness Studio'']),
      (''hotel'', [''Hotel'', ''Inn'', ''Resort'', ''Lodge'']),
      (''default'', default_pattern)]"

definition names :: "string list" where
  "names = [''Smith'', ''Johnson'', ''Williams'', ''Brown'', ''Jones'', ''Garcia'', ''Miller'',
            ''Davis'', ''Rodriguez'', ''Martinez'']"

definition default_locations :: "string list" where
  "default_locations = [''Downtown'', ''Central'', ''North'', ''South'', ''East'', ''West'']"

text \<open>The loop over the entries that finds the matching pattern, with its \<open>break\<close>.\<close>

fun find_pattern :: "(string \<times> string list) list \<Rightarrow> string \<Rightarrow> string list \<Rightarrow> string list" where
  "find_pattern [] industry pattern = pattern"
| "find_pattern ((key, val) # rest) industry pattern =
     (if includes_str (toLowerCase industry) key then val
      else find_pattern rest industry pattern)"

text \<open>
  \<open>xs[Math.floor(r * xs.length)]\<close> inside a template literal: an index out of range
  reads \<open>undefined\<close>, which the template renders as that word.
\<close>

definition pick :: "string list \<Rightarrow> rat \<Rightarrow> string" where
  "pick xs r =
     (let k = \<lfloor>r * of_nat (length xs)\<rfloor> in
      if 0 \<le> k \<and> k < int (length xs) then xs ! nat k else ''undefined'')"

definition demo_url :: "string \<Rightarrow> nat \<Rightarrow> string" where
  "demo_url industry i =
     ''https://example-'' @ replace_spaces (toLowerCase industry) @ ''-'' @ string_of_nat i @ ''.com''"

text \<open>The body of the loop: the lead with index \<open>i\<close>, from four draws.\<close>

definition demo_lead :: "string \<Rightarrow> string list \<Rightarrow> string list \<Rightarrow> nat \<Rightarrow> world \<Rightarrow> lead \<times> world" where
  "demo_lead industry pattern locations i w =
     (let (r1, w1) = Math_random w;
          randomName = pick names r1;
          (r2, w2) = Math_random w1;
          randomPattern = pick pattern r2;
          (r3, w3) = Math_random w2;
          randomLocation = pick locations r3;
          businessName = randomName @ [CHR 0x27] @ ''s '' @ randomPattern;
          (r4, w4) = Math_random w3;
          hasContact = (r4 > 1 / 2)
      in (\<lparr>name = businessName,
           url = demo_url industry i,
           description = ''Professional '' @ industry @ '' services in ''
             @ randomLocation @ ''. ''
             @ (if hasContact then ''Contact available for inquiries.''
                else ''Serving the local community with quality service.''),
           contact = (if hasContact
                      then Some (''contact@''
                        @ strip_non_alnum (toLowerCase businessName) @ ''.com'')
                      else None)\<rparr>, w4))"

text \<open>\<open>for (let i = 0; i < numLeads; i++) { leads.push(...) }\<close>\<close>

function demo_loop ::
  "string \<Rightarrow> string list \<Rightarrow> string list \<Rightarrow> int \<Rightarrow> nat \<Rightarrow> lead list \<Rightarrow> world \<Rightarrow> lead list \<times> world" where
  "demo_loop industry pattern locations numLeads i leads w =
     (if int i < numLeads then
        (case demo_lead industry pattern locations i w of
           (l, w') \<Rightarrow> demo_loop industry pattern locations numLeads (Suc i) (leads @ [l]) w')
      else (leads, w))"
  by pat_completeness auto
termination
  by (relation "measure (\<lambda>(industry, pattern, locations, numLeads, i, leads, w).
        nat (numLeads - int i))") auto

definition generateDemoLeads :: "string \<Rightarrow> string \<Rightarrow> world \<Rightarrow> lead list \<times> world" where
  "generateDemoLeads industry location w =
     (let locations = (if location \<noteq> [] then [location] else default_locations);
          pattern = find_pattern industryPatterns industry default_pattern;
          (r, w1) = Math_random w;
          numLeads = min 15 (\<lfloor>r * 8\<rfloor> + 8)
      in demo_loop industry pattern locations numLeads 0 [] w1)"

subsection \<open>\<open>POST\<close>\<close>

text \<open>
  The parsed request body: \<open>request.json()\<close> throws on a malformed body; otherwise the
  fields \<open>industry\<close> and \<open>location\<close> are strings, or absent.
\<close>

datatype request = Bad_json error | Json "string option" "string option"

datatype payload =
  Error_payload (payload_error: string)
| Leads_payload (payload_leads: "lead list") (payload_source: string)

datatype response = NextResponse_json (response_payload: payload) (response_status: nat)

text \<open>
  A JavaScript \<open>Map\<close> keeps its keys in the order of their first insertion; setting a
  key that is present replaces its value where it stands.
\<close>

fun map_set :: "(string \<times> lead) list \<Rightarrow> string \<Rightarrow> lead \<Rightarrow> (string \<times> lead) list" where
  "map_set [] k v = [(k, v)]"
| "map_set ((k', v') # m) k v =
     (if k' = k then (k, v) # m else (k', v') # map_set m k v)"

definition new_Map :: "(string \<times> lead) list \<Rightarrow> (string \<times> lead) list" where
  "new_Map entries = fold (\<lambda>(k, v) m. map_set m k v) entries []"

text \<open>\<open>Array.from(new Map(leads.map(lead => [lead.url, lead])).values())\<close>\<close>

definition uniqueLeads :: "lead list \<Rightarrow> lead list" where
  "uniqueLeads leads = map snd (new_Map (map (\<lambda>lead. (url lead, lead)) leads))"

text \<open>
  The three strategies of \<open>POST\<close>, which build the working sequence \<open>leads\<close>. An
  adapter that threw would end the strategies with its error.
\<close>

definition strategies :: "string \<Rightarrow> string option \<Rightarrow> world \<Rightarrow> (error + lead list) \<times> world" where
  "strategies industry location w =
     (case scrapeFromDuckDuckGo industry (or_empty location) w of
        (Inl e, w1) \<Rightarrow> (Inl e, w1)
      | (Inr duckduckgoLeads, w1) \<Rightarrow>
          let leads = (if length duckduckgoLeads > 0 then [] @ duckduckgoLeads else []) in
          case (if length leads < 10 then
                  (case scrapeFromBing industry (or_empty location) w1 of
                     (Inl e, w2) \<Rightarrow> (Inl e, w2)
                   | (Inr bingLeads, w2) \<Rightarrow> (Inr (leads @ bingLeads), w2))
                else (Inr leads, w1)) of
            (Inl e, w2) \<Rightarrow> (Inl e, w2)
          | (Inr leads2, w2) \<Rightarrow>
              if length leads2 < 5 then
                let (demoLeads, w3) = generateDemoLeads industry (or_empty location) w2
                in (Inr (leads2 @ demoLeads), w3)
              else (Inr leads2, w2))"

definition POST_try :: "request \<Rightarrow> world \<Rightarrow> (error + response) \<times> world" where
  "POST_try req w =
     (case req of
        Bad_json e \<Rightarrow> (Inl e, w)
      | Json None location \<Rightarrow>
          (Inr (NextResponse_json (Error_payload ''Industry is required'') 400), w)
      | Json (Some industry) location \<Rightarrow>
          if industry = [] then
            (Inr (NextResponse_json (Error_payload ''Industry is required'') 400), w)
          else
            (case strategies industry location w of
               (Inl e, w1) \<Rightarrow> (Inl e, w1)
             | (Inr leads, w1) \<Rightarrow>
                 let unique = uniqueLeads leads in
                 (Inr (NextResponse_json
                        (Leads_payload (take 25 unique)
                           (if length unique > 0 then ''web_scraping'' else ''demo''))
                        200), w1)))"

definition POST :: "request \<Rightarrow> world \<Rightarrow> response \<times> world" where
  "POST req w =
     (case POST_try req w of
        (Inl (Error message), w1) \<Rightarrow>
          (NextResponse_json
             (Error_payload (if message \<noteq> [] then message else ''Failed to scrape leads''))
             500,
           console_error ''Scraping error:'' w1)
      | (Inr resp, w1) \<Rightarrow> (resp, w1))"

subsection \<open>Notions used to state the properties\<close>

text \<open>\<open>Math.random()\<close> returns a number from 0 inclusive to 1 exclusive.\<close>

definition random_ok :: "world \<Rightarrow> bool" where
  "random_ok w \<longleftrightarrow> (\<forall>n. 0 \<le> random w n \<and> random w n < 1)"






text \<open>The elements of a list in the order of their first occurrences.\<close>

function first_occurrences :: "'a list \<Rightarrow> 'a list" where
  "first_occurrences [] = []"
| "first_occurrences (x # xs) = x # first_occurrences (removeAll x xs)"
  by pat_completeness auto
termination
  by (relation "measure length") (auto simp: length_removeAll_less_eq le_imp_less_Suc)

text \<open>The leads an adapter returned (none if it threw).\<close>

definition leads_of :: "(error + lead list) \<Rightarrow> lead list" where
  "leads_of r = (case r of Inl e \<Rightarrow> [] | Inr leads \<Rightarrow> leads)"

text \<open>The fetch, the reading of the body or the parsing of the page fails.\<close>

fun failed :: "fetched \<Rightarrow> bool" where
  "failed (Fetch_throws e) = True"
| "failed (Response ok (Html els)) = (\<not> ok)"
| "failed (Response ok b) = True"

text \<open>A world for examples: every page loads and has no results, every draw is 0.\<close>

definition quiet_world :: world where
  "quiet_world = \<lparr>http = (\<lambda>u. Response True (Html [])), requests = [],
     random = (\<lambda>n. 0), drawn = 0, console = []\<rparr>"

text \<open>A world where Bing answers with a non-success status and every other fetch throws.\<close>

definition failing_world :: world where
  "failing_world = \<lparr>http = (\<lambda>u. if startsWith u ''https://www.bing.com''
                                   then Response False (Html [])
                                   else Fetch_throws (Error ''fetch failed'')),
     requests = [], random = (\<lambda>n. 0), drawn = 0, console = []\<rparr>"

text \<open>A result page with one result, whose link is relative.\<close>

definition relative_link_page :: "element list" where
  "relative_link_page =
     [\<lparr>title_text = ''Acme Plumbing'', href = Some ''/local/acme'', snippet_text = []\<rparr>]"

text \<open>A world where every page has the same ten results.\<close>

definition ten_results_world :: world where
  "ten_results_world = \<lparr>http = (\<lambda>u. Response True (Html (replicate 10
       \<lparr>title_text = ''Iron Gym'', href = Some ''irongym.example'',
        snippet_text = ''Call 555-123-4567''\<rparr>))),
     requests = [], random = (\<lambda>n. 0), drawn = 0, console = []\<rparr>"

section \<open>Properties\<close>

subsection \<open>Deduplication through the \<open>Map\<close>\<close>

lemma first_occurrences_set: "set (first_occurrences xs) = set xs"
  by (induction xs rule: first_occurrences.induct) auto

lemma first_occurrences_distinct: "distinct (first_occurrences xs)"
  by (induction xs rule: first_occurrences.induct) (auto simp: first_occurrences_set)

lemma map_set_keys:
  "map fst (map_set m k v) = (if k \<in> fst ` set m then map fst m else map fst m @ [k])"
  by (induction m k v rule: map_set.induct) auto

lemma map_set_map_of: "map_of (map_set m k v) = (map_of m)(k \<mapsto> v)"
  by (induction m k v rule: map_set.induct) auto

lemma map_set_key_set: "fst ` set (map_set m k v) = insert k (fst ` set m)"
  by (induction m k v rule: map_set.induct) auto

lemma filter_insert_removeAll:
  "filter (\<lambda>y. y \<notin> insert k S) xs = removeAll k (filter (\<lambda>y. y \<notin> S) xs)"
  by (induction xs) auto

lemma fold_map_set_keys:
  "map fst (fold (\<lambda>(k, v) m. map_set m k v) es m) =
     map fst m @ first_occurrences (filter (\<lambda>k. k \<notin> fst ` set m) (map fst es))"
proof (induction es arbitrary: m)
  case Nil
  then show ?case by simp
next
  case (Cons e es)
  obtain k v where e: "e = (k, v)" by (cases e)
  have IH: "map fst (fold (\<lambda>(k, v) m. map_set m k v) es (map_set m k v)) =
     map fst (map_set m k v) @
       first_occurrences (removeAll k (filter (\<lambda>y. y \<notin> fst ` set m) (map fst es)))"
    unfolding Cons.IH [of "map_set m k v"] map_set_key_set filter_insert_removeAll ..
  show ?case
  proof (cases "k \<in> fst ` set m")
    case True
    then have "removeAll k (filter (\<lambda>y. y \<notin> fst ` set m) (map fst es)) =
               filter (\<lambda>y. y \<notin> fst ` set m) (map fst es)"
      by (simp add: removeAll_id)
    with True IH show ?thesis by (simp add: e map_set_keys)
  next
    case False
    with IH show ?thesis by (simp add: e map_set_keys)
  qed
qed

lemma fold_map_set_map_of:
  "map_of (fold (\<lambda>(k, v) m. map_set m k v) es m) = map_of m ++ map_of (rev es)"
proof (induction es arbitrary: m)
  case Nil
  then show ?case by simp
next
  case (Cons e es)
  obtain k v where e: "e = (k, v)" by (cases e)
  have "map_of (map_set m k v) ++ map_of (rev es) = map_of m ++ (map_of [(k, v)] ++ map_of (rev es))"
    by (simp add: map_set_map_of fun_eq_iff map_add_def split: option.splits)
  then show ?case
    using Cons.IH [of "map_set m k v"] by (simp add: e)
qed

lemma new_Map_keys: "map fst (new_Map es) = first_occurrences (map fst es)"
  by (simp add: new_Map_def fold_map_set_keys)

lemma new_Map_map_of: "map_of (new_Map es) = map_of (rev es)"
  by (simp add: new_Map_def fold_map_set_map_of)

lemma map_of_rev_last:
  "map_of (rev (map (\<lambda>l. (url l, l)) ls)) u =
     (if filter (\<lambda>l. url l = u) ls = [] then None else Some (last (filter (\<lambda>l. url l = u) ls)))"
  by (induction ls rule: rev_induct) auto

lemma last_filter_url:
  "filter (\<lambda>l. url l = k) ls \<noteq> [] \<Longrightarrow>
     url (last (filter (\<lambda>l. url l = k) ls)) = k \<and> last (filter (\<lambda>l. url l = k) ls) \<in> set ls"
  using last_in_set [of "filter (\<lambda>l. url l = k) ls"] by simp

lemma new_Map_entry:
  assumes "(k, v) \<in> set (new_Map (map (\<lambda>l. (url l, l)) ls))"
  shows "filter (\<lambda>l. url l = k) ls \<noteq> [] \<and> v = last (filter (\<lambda>l. url l = k) ls) \<and> url v = k"
proof -
  let ?es = "map (\<lambda>l. (url l, l)) ls"
  have "distinct (map fst (new_Map ?es))"
    by (simp add: new_Map_keys first_occurrences_distinct)
  with assms have "map_of (new_Map ?es) k = Some v" by simp
  then have *: "map_of (rev ?es) k = Some v" by (simp add: new_Map_map_of)
  then have ne: "filter (\<lambda>l. url l = k) ls \<noteq> []" and v: "v = last (filter (\<lambda>l. url l = k) ls)"
    unfolding map_of_rev_last by (simp_all split: if_splits)
  from last_filter_url [OF ne] have "url (last (filter (\<lambda>l. url l = k) ls)) = k" ..
  then have "url v = k" unfolding v .
  with ne v show ?thesis by blast
qed

lemma new_Map_entry_url:
  "(k, v) \<in> set (new_Map (map (\<lambda>l. (url l, l)) ls)) \<Longrightarrow> url v = k"
  using new_Map_entry by blast

lemma map_url_snd:
  "(\<And>k v. (k, v) \<in> set m \<Longrightarrow> url v = k) \<Longrightarrow> map url (map snd m) = map fst m"
  by (induction m) auto

lemma uniqueLeads_urls: "map url (uniqueLeads ls) = first_occurrences (map url ls)"
proof -
  let ?es = "map (\<lambda>l. (url l, l)) ls"
  have "map url (uniqueLeads ls) = map fst (new_Map ?es)"
    unfolding uniqueLeads_def by (rule map_url_snd) (rule new_Map_entry_url)
  also have "\<dots> = first_occurrences (map fst ?es)" by (rule new_Map_keys)
  also have "map fst ?es = map url ls" by (simp add: comp_def)
  finally show ?thesis .
qed

lemma uniqueLeads_last:
  assumes "v \<in> set (uniqueLeads ls)"
  shows "v = last (filter (\<lambda>l. url l = url v) ls) \<and> v \<in> set ls"
proof -
  from assms obtain k where "(k, v) \<in> set (new_Map (map (\<lambda>l. (url l, l)) ls))"
    by (auto simp: uniqueLeads_def)
  from new_Map_entry [OF this] have ne: "filter (\<lambda>l. url l = k) ls \<noteq> []"
     and v: "v = last (filter (\<lambda>l. url l = k) ls)" and k: "url v = k" by blast+
  from last_filter_url [OF ne] have "last (filter (\<lambda>l. url l = k) ls) \<in> set ls" ..
  then have "v \<in> set ls" unfolding v .
  moreover from v have "v = last (filter (\<lambda>l. url l = url v) ls)" unfolding k .
  ultimately show ?thesis by blast
qed

lemma uniqueLeads_subset: "set (uniqueLeads ls) \<subseteq> set ls"
  using uniqueLeads_last by blast

lemma filter_distinct_key:
  "distinct (map f xs) \<Longrightarrow> x \<in> set xs \<Longrightarrow> filter (\<lambda>y. f y = f x) xs = [x]"
proof (induction xs)
  case Nil
  then show ?case by simp
next
  case (Cons a xs)
  show ?case
  proof (cases "a = x")
    case True
    with Cons.prems have "filter (\<lambda>y. f y = f x) xs = []"
      by (auto simp: filter_empty_conv image_iff)
    with True show ?thesis by simp
  next
    case False
    with Cons show ?thesis by (auto simp: image_iff)
  qed
qed

lemma uniqueLeads_filter:
  assumes "u \<in> url ` set ls"
  shows "filter (\<lambda>l. url l = u) (uniqueLeads ls) = [last (filter (\<lambda>l. url l = u) ls)]"
proof -
  have "u \<in> set (map url (uniqueLeads ls))"
    using assms by (simp add: uniqueLeads_urls first_occurrences_set)
  then obtain v where v: "v \<in> set (uniqueLeads ls)" and u: "url v = u" by auto
  have "distinct (map url (uniqueLeads ls))"
    by (simp add: uniqueLeads_urls first_occurrences_distinct)
  from filter_distinct_key [OF this v] have "filter (\<lambda>l. url l = u) (uniqueLeads ls) = [v]"
    by (simp add: u)
  moreover have "v = last (filter (\<lambda>l. url l = u) ls)"
    using uniqueLeads_last [OF v] unfolding u by blast
  ultimately show ?thesis by simp
qed

text \<open>
  C4. Deduplication is last-write-wins on the url: whenever leads of the working sequence
  carry the url \<open>u\<close> (in particular when two or more share it), the deduplicated output
  has exactly one entry with that url, and this entry is the lead appended latest among
  them, so its name, description and contact are those of that lead.
\<close>

theorem dedup_last_write_wins:
  assumes "filter (\<lambda>l. url l = u) leads \<noteq> []"
  shows "filter (\<lambda>l. url l = u) (uniqueLeads leads) = [last (filter (\<lambda>l. url l = u) leads)]"
proof -
  from assms obtain l where "l \<in> set leads" and "url l = u"
    by (auto simp: filter_empty_conv)
  then have "u \<in> url ` set leads" by auto
  then show ?thesis by (rule uniqueLeads_filter)
qed

theorem dedup_last_write_wins_witness:
  "filter (\<lambda>l. url l = ''a.com'')
     [\<lparr>name = ''A'', url = ''a.com'', description = ''first'', contact = None\<rparr>,
      \<lparr>name = ''B'', url = ''b.com'', description = ''other'', contact = None\<rparr>,
      \<lparr>name = ''C'', url = ''a.com'', description = ''second'', contact = Some ''c@a.com''\<rparr>] \<noteq> []
   \<and> filter (\<lambda>l. url l = ''a.com'')
     (uniqueLeads
       [\<lparr>name = ''A'', url = ''a.com'', description = ''first'', contact = None\<rparr>,
        \<lparr>name = ''B'', url = ''b.com'', description = ''other'', contact = None\<rparr>,
        \<lparr>name = ''C'', url = ''a.com'', description = ''second'', contact = Some ''c@a.com''\<rparr>])
     = [\<lparr>name = ''C'', url = ''a.com'', description = ''second'', contact = Some ''c@a.com''\<rparr>]"
  using dedup_last_write_wins [of "''a.com''"
     "[\<lparr>name = ''A'', url = ''a.com'', description = ''first'', contact = None\<rparr>,
       \<lparr>name = ''B'', url = ''b.com'', description = ''other'', contact = None\<rparr>,
       \<lparr>name = ''C'', url = ''a.com'', description = ''second'', contact = Some ''c@a.com''\<rparr>]"]
  by simp

text \<open>
  C10. The deduplicated output keeps the order of first occurrences: its urls are the
  urls of the working sequence in the order in which each first occurs, while every
  entry is the last lead of the working sequence with its url.
\<close>

theorem dedup_first_occurrence_order:
  "map url (uniqueLeads leads) = first_occurrences (map url leads)
   \<and> (\<forall>l \<in> set (uniqueLeads leads). l = last (filter (\<lambda>x. url x = url l) leads))"
  using uniqueLeads_urls uniqueLeads_last by blast

theorem dedup_first_occurrence_order_witness:
  "map url (uniqueLeads
       [\<lparr>name = ''A'', url = ''a.com'', description = ''first'', contact = None\<rparr>,
        \<lparr>name = ''B'', url = ''b.com'', description = ''other'', contact = None\<rparr>,
        \<lparr>name = ''C'', url = ''a.com'', description = ''second'', contact = None\<rparr>])
     = [''a.com'', ''b.com'']
   \<and> uniqueLeads
       [\<lparr>name = ''A'', url = ''a.com'', description = ''first'', contact = None\<rparr>,
        \<lparr>name = ''B'', url = ''b.com'', description = ''other'', contact = None\<rparr>,
        \<lparr>name = ''C'', url = ''a.com'', description = ''second'', contact = None\<rparr>]
     = [\<lparr>name = ''C'', url = ''a.com'', description = ''second'', contact = None\<rparr>,
        \<lparr>name = ''B'', url = ''b.com'', description = ''other'', contact = None\<rparr>]"
  using dedup_first_occurrence_order
    [of "[\<lparr>name = ''A'', url = ''a.com'', description = ''first'', contact = None\<rparr>,
          \<lparr>name = ''B'', url = ''b.com'', description = ''other'', contact = None\<rparr>,
          \<lparr>name = ''C'', url = ''a.com'', description = ''second'', contact = None\<rparr>]"]
  by (simp add: uniqueLeads_def new_Map_def)

subsection \<open>Contact inference and the matcher\<close>



























subsection \<open>The synthetic generator\<close>

declare string_of_nat.simps [simp del]
declare demo_loop.simps [simp del]

lemma demo_lead_world:
  "requests (snd (demo_lead industry pattern locations i w)) = requests w"
  "random (snd (demo_lead industry pattern locations i w)) = random w"
  "drawn (snd (demo_lead industry pattern locations i w)) = drawn w + 4"
  "http (snd (demo_lead industry pattern locations i w)) = http w"
  by (simp_all add: demo_lead_def Math_random_def Let_def)

lemma demo_lead_fields:
  "url (fst (demo_lead industry pattern locations i w)) = demo_url industry i"
  "name (fst (demo_lead industry pattern locations i w)) \<noteq> []"
  by (simp_all add: demo_lead_def Math_random_def Let_def)

lemma demo_loop_stop:
  "\<not> int i < numLeads \<Longrightarrow> demo_loop industry pattern locations numLeads i leads w = (leads, w)"
  by (simp add: demo_loop.simps)

lemma demo_loop_step:
  "int i < numLeads \<Longrightarrow>
     demo_loop industry pattern locations numLeads i leads w =
     demo_loop industry pattern locations numLeads (Suc i)
       (leads @ [fst (demo_lead industry pattern locations i w)])
       (snd (demo_lead industry pattern locations i w))"
  by (subst demo_loop.simps) (simp add: split_def)


lemma demo_loop_world:
  "requests (snd (demo_loop industry pattern locations numLeads i leads w)) = requests w
   \<and> random (snd (demo_loop industry pattern locations numLeads i leads w)) = random w
   \<and> http (snd (demo_loop industry pattern locations numLeads i leads w)) = http w
   \<and> drawn (snd (demo_loop industry pattern locations numLeads i leads w))
       = drawn w + 4 * nat (numLeads - int i)"
proof (induction industry pattern locations numLeads i leads w rule: demo_loop.induct)
  case (1 industry pattern locations numLeads i leads w)
  show ?case
  proof (cases "int i < numLeads")
    case True
    have step: "nat (numLeads - int i) = Suc (nat (numLeads - int (Suc i)))"
      using True by simp
    show ?thesis
      using "1.IH" [OF True prod.collapse]
      unfolding demo_loop_step [OF True] step
      by (simp add: demo_lead_world)
  next
    case False
    then show ?thesis by (simp add: demo_loop_stop)
  qed
qed

lemma demo_loop_urls:
  "map url (fst (demo_loop industry pattern locations numLeads i leads w))
     = map url leads @ map (demo_url industry) [i..<nat numLeads]"
proof (induction industry pattern locations numLeads i leads w rule: demo_loop.induct)
  case (1 industry pattern locations numLeads i leads w)
  show ?case
  proof (cases "int i < numLeads")
    case True
    then have "i < nat numLeads" by simp
    then have upt: "[i..<nat numLeads] = i # [Suc i..<nat numLeads]"
      by (simp add: upt_conv_Cons)
    show ?thesis
      using "1.IH" [OF True prod.collapse]
      unfolding demo_loop_step [OF True] upt
      by (simp add: demo_lead_fields)
  next
    case False
    then show ?thesis by (simp add: demo_loop_stop)
  qed
qed

lemma demo_loop_names:
  "\<forall>l \<in> set leads. name l \<noteq> [] \<Longrightarrow>
     \<forall>l \<in> set (fst (demo_loop industry pattern locations numLeads i leads w)). name l \<noteq> []"
proof (induction industry pattern locations numLeads i leads w rule: demo_loop.induct)
  case (1 industry pattern locations numLeads i leads w)
  show ?case
  proof (cases "int i < numLeads")
    case True
    have "\<forall>l \<in> set (leads @ [fst (demo_lead industry pattern locations i w)]). name l \<noteq> []"
      using "1.prems" by (simp add: demo_lead_fields)
    from "1.IH" [OF True prod.collapse this] show ?thesis
      unfolding demo_loop_step [OF True] .
  next
    case False
    with "1.prems" show ?thesis by (simp add: demo_loop_stop)
  qed
qed

lemma digit_char_inj: "a < 10 \<Longrightarrow> b < 10 \<Longrightarrow> digit_char a = digit_char b \<Longrightarrow> a = b"
proof -
  assume a: "a < 10" and b: "b < 10" and eq: "digit_char a = digit_char b"
  from eq have "of_char (digit_char a) = (of_char (digit_char b) :: nat)" by simp
  with a b show "a = b" by (simp add: digit_char_def)
qed

lemma string_of_nat_nonempty: "string_of_nat n \<noteq> []"
  by (subst string_of_nat.simps) simp

lemma string_of_nat_inj: "string_of_nat m = string_of_nat n \<Longrightarrow> m = n"
proof (induction m arbitrary: n rule: string_of_nat.induct)
  case (1 m)
  show ?case
  proof (cases "m < 10")
    case m: True
    show ?thesis
    proof (cases "n < 10")
      case True
      with m "1.prems" show ?thesis
        using digit_char_inj [of m n]
        by (simp add: string_of_nat.simps [of m] string_of_nat.simps [of n])
    next
      case False
      with m "1.prems" show ?thesis
        using string_of_nat_nonempty [of "n div 10"]
        by (simp add: string_of_nat.simps [of m] string_of_nat.simps [of n])
    qed
  next
    case m: False
    show ?thesis
    proof (cases "n < 10")
      case True
      with m "1.prems" show ?thesis
        using string_of_nat_nonempty [of "m div 10"]
        by (simp add: string_of_nat.simps [of m] string_of_nat.simps [of n])
    next
      case False
      with m "1.prems" have tl: "string_of_nat (m div 10) = string_of_nat (n div 10)"
        and hd: "digit_char (m mod 10) = digit_char (n mod 10)"
        by (simp_all add: string_of_nat.simps [of m] string_of_nat.simps [of n])
      from "1.IH" [OF m tl] have d: "m div 10 = n div 10" .
      from hd have r: "m mod 10 = n mod 10"
        using digit_char_inj [of "m mod 10" "n mod 10"] by simp
      from d r show ?thesis by (metis div_mult_mod_eq)
    qed
  qed
qed

lemma demo_url_inj: "demo_url industry i = demo_url industry j \<Longrightarrow> i = j"
  by (simp add: demo_url_def string_of_nat_inj)

lemma demo_url_nonempty: "demo_url industry i \<noteq> []"
  by (simp add: demo_url_def)

lemma demo_urls_distinct: "distinct (map (demo_url industry) [i..<n])"
  by (simp add: distinct_map inj_on_def) (blast dest: demo_url_inj)

lemma numLeads_range:
  assumes "0 \<le> r" "r < (1::rat)"
  shows "8 \<le> min 15 (\<lfloor>r * 8\<rfloor> + 8)" "min 15 (\<lfloor>r * 8\<rfloor> + 8) \<le> 15"
proof -
  from assms have "0 \<le> r * 8" by simp
  then have "0 \<le> \<lfloor>r * 8\<rfloor>" by simp
  then show "8 \<le> min 15 (\<lfloor>r * 8\<rfloor> + 8)" by simp
  show "min 15 (\<lfloor>r * 8\<rfloor> + 8) \<le> 15" by simp
qed

lemma generateDemoLeads_world:
  "requests (snd (generateDemoLeads industry location w)) = requests w"
  "random (snd (generateDemoLeads industry location w)) = random w"
  "http (snd (generateDemoLeads industry location w)) = http w"
  "drawn (snd (generateDemoLeads industry location w))
     = Suc (drawn w) + 4 * nat (min 15 (\<lfloor>random w (drawn w) * 8\<rfloor> + 8))"
  using demo_loop_world
  by (simp_all add: generateDemoLeads_def Math_random_def Let_def)

lemma generateDemoLeads_urls:
  "map url (fst (generateDemoLeads industry location w))
     = map (demo_url industry) [0..<nat (min 15 (\<lfloor>random w (drawn w) * 8\<rfloor> + 8))]"
  by (simp add: generateDemoLeads_def Math_random_def Let_def demo_loop_urls)

lemma generateDemoLeads_names:
  "\<forall>l \<in> set (fst (generateDemoLeads industry location w)). name l \<noteq> []"
  using demo_loop_names [of "[]"]
  by (simp add: generateDemoLeads_def Math_random_def Let_def)

lemma generateDemoLeads_url_nonempty:
  "\<forall>l \<in> set (fst (generateDemoLeads industry location w)). url l \<noteq> []"
proof
  fix l assume "l \<in> set (fst (generateDemoLeads industry location w))"
  then have "url l \<in> set (map url (fst (generateDemoLeads industry location w)))" by simp
  then show "url l \<noteq> []"
    unfolding generateDemoLeads_urls using demo_url_nonempty by (auto simp: eq_commute [of "[]"])
qed

lemma generateDemoLeads_distinct:
  "distinct (map url (fst (generateDemoLeads industry location w)))"
  unfolding generateDemoLeads_urls by (rule demo_urls_distinct)

lemma generateDemoLeads_length:
  "length (fst (generateDemoLeads industry location w))
     = nat (min 15 (\<lfloor>random w (drawn w) * 8\<rfloor> + 8))"
proof -
  have "length (map url (fst (generateDemoLeads industry location w)))
      = nat (min 15 (\<lfloor>random w (drawn w) * 8\<rfloor> + 8))"
    unfolding generateDemoLeads_urls by simp
  then show ?thesis by simp
qed

lemma generateDemoLeads_count:
  assumes "random_ok w"
  shows "8 \<le> length (fst (generateDemoLeads industry location w))"
    and "length (fst (generateDemoLeads industry location w)) \<le> 15"
proof -
  from assms have r: "0 \<le> random w (drawn w)" "random w (drawn w) < 1"
    by (simp_all add: random_ok_def)
  from numLeads_range [OF r] show "8 \<le> length (fst (generateDemoLeads industry location w))"
    and "length (fst (generateDemoLeads industry location w)) \<le> 15"
    unfolding generateDemoLeads_length by linarith+
qed

subsection \<open>The adapters and the strategies\<close>

lemma scrapeFromDuckDuckGo_world:
  "requests (snd (scrapeFromDuckDuckGo industry location w))
     = requests w @ [duckduckgo_searchUrl industry location]"
  "random (snd (scrapeFromDuckDuckGo industry location w)) = random w"
  "drawn (snd (scrapeFromDuckDuckGo industry location w)) = drawn w"
  "http (snd (scrapeFromDuckDuckGo industry location w)) = http w"
  by (simp_all add: scrapeFromDuckDuckGo_def scrapeFromDuckDuckGo_try_def fetch_url_def
      console_error_def split: fetched.splits body.splits)

lemma scrapeFromBing_world:
  "requests (snd (scrapeFromBing industry location w))
     = requests w @ [bing_searchUrl industry location]"
  "random (snd (scrapeFromBing industry location w)) = random w"
  "drawn (snd (scrapeFromBing industry location w)) = drawn w"
  "http (snd (scrapeFromBing industry location w)) = http w"
  by (simp_all add: scrapeFromBing_def scrapeFromBing_try_def fetch_url_def
      console_error_def split: fetched.splits body.splits)

lemma duckduckgo_push_fields:
  "\<forall>l \<in> set (duckduckgo_push e). name l \<noteq> [] \<and> url l \<noteq> []"
  by (simp add: duckduckgo_push_def Let_def)

lemma duckduckgo_push_absolute: "\<forall>l \<in> set (duckduckgo_push e). startsWith (url l) ''http''"
  by (simp add: duckduckgo_push_def Let_def startsWith_def)

lemma bing_push_fields: "\<forall>l \<in> set (bing_push e). name l \<noteq> [] \<and> url l \<noteq> []"
  by (simp add: bing_push_def Let_def)

lemma duckduckgo_each_all:
  "\<forall>l \<in> set leads. P l \<Longrightarrow> (\<And>e. \<forall>l \<in> set (duckduckgo_push e). P l) \<Longrightarrow>
     \<forall>l \<in> set (duckduckgo_each i es leads). P l"
proof (induction es arbitrary: i leads)
  case Nil
  then show ?case by simp
next
  case (Cons e es)
  have "\<forall>l \<in> set (leads @ duckduckgo_push e). P l"
    using Cons.prems by auto
  from Cons.IH [OF this Cons.prems(2)] Cons.prems(1) show ?case by simp
qed

lemma bing_each_all:
  "\<forall>l \<in> set leads. P l \<Longrightarrow> (\<And>e. \<forall>l \<in> set (bing_push e). P l) \<Longrightarrow>
     \<forall>l \<in> set (bing_each i es leads). P l"
proof (induction es arbitrary: i leads)
  case Nil
  then show ?case by simp
next
  case (Cons e es)
  have "\<forall>l \<in> set (leads @ bing_push e). P l"
    using Cons.prems by auto
  from Cons.IH [OF this Cons.prems(2)] Cons.prems(1) show ?case by simp
qed

lemma duckduckgo_each_fields:
  "\<forall>l \<in> set (duckduckgo_each 0 es []). name l \<noteq> [] \<and> url l \<noteq> []"
  by (rule duckduckgo_each_all) (simp, rule duckduckgo_push_fields)

lemma duckduckgo_each_absolute:
  "\<forall>l \<in> set (duckduckgo_each 0 es []). startsWith (url l) ''http''"
  by (rule duckduckgo_each_all) (simp, rule duckduckgo_push_absolute)

lemma bing_each_fields:
  "\<forall>l \<in> set (bing_each 0 es []). name l \<noteq> [] \<and> url l \<noteq> []"
  by (rule bing_each_all) (simp, rule bing_push_fields)

lemma scrapeFromDuckDuckGo_fields:
  "\<forall>l \<in> set (leads_of (fst (scrapeFromDuckDuckGo industry location w))).
     name l \<noteq> [] \<and> url l \<noteq> []"
  using duckduckgo_each_fields
  by (simp add: scrapeFromDuckDuckGo_def scrapeFromDuckDuckGo_try_def fetch_url_def leads_of_def
      split: fetched.splits body.splits)

lemma scrapeFromDuckDuckGo_absolute:
  "\<forall>l \<in> set (leads_of (fst (scrapeFromDuckDuckGo industry location w))).
     startsWith (url l) ''http''"
  using duckduckgo_each_absolute
  by (simp add: scrapeFromDuckDuckGo_def scrapeFromDuckDuckGo_try_def fetch_url_def leads_of_def
      split: fetched.splits body.splits)

lemma scrapeFromBing_fields:
  "\<forall>l \<in> set (leads_of (fst (scrapeFromBing industry location w))).
     name l \<noteq> [] \<and> url l \<noteq> []"
  using bing_each_fields
  by (simp add: scrapeFromBing_def scrapeFromBing_try_def fetch_url_def leads_of_def
      split: fetched.splits body.splits)

lemma scrapeFromDuckDuckGo_returns:
  "\<exists>leads. fst (scrapeFromDuckDuckGo industry location w) = Inr leads"
  by (simp add: scrapeFromDuckDuckGo_def split: prod.splits sum.splits)

lemma scrapeFromBing_returns:
  "\<exists>leads. fst (scrapeFromBing industry location w) = Inr leads"
  by (simp add: scrapeFromBing_def split: prod.splits sum.splits)

lemma scrapeFromDuckDuckGo_eq:
  "scrapeFromDuckDuckGo industry location w =
     (Inr (leads_of (fst (scrapeFromDuckDuckGo industry location w))),
      snd (scrapeFromDuckDuckGo industry location w))"
proof -
  obtain d where "fst (scrapeFromDuckDuckGo industry location w) = Inr d"
    using scrapeFromDuckDuckGo_returns by blast
  then show ?thesis by (simp add: leads_of_def prod_eq_iff)
qed

lemma scrapeFromBing_eq:
  "scrapeFromBing industry location w =
     (Inr (leads_of (fst (scrapeFromBing industry location w))),
      snd (scrapeFromBing industry location w))"
proof -
  obtain d where "fst (scrapeFromBing industry location w) = Inr d"
    using scrapeFromBing_returns by blast
  then show ?thesis by (simp add: leads_of_def prod_eq_iff)
qed

lemma strategies_eq:
  fixes industry :: string and location :: "string option" and w :: world
  defines "loc \<equiv> or_empty location"
  defines "r1 \<equiv> scrapeFromDuckDuckGo industry loc w"
  defines "D \<equiv> leads_of (fst r1)"
  defines "r2 \<equiv> scrapeFromBing industry loc (snd r1)"
  defines "B \<equiv> (if length D < 10 then leads_of (fst r2) else [])"
  defines "w2 \<equiv> (if length D < 10 then snd r2 else snd r1)"
  defines "r3 \<equiv> generateDemoLeads industry loc w2"
  shows "strategies industry location w =
     (Inr (D @ B @ (if length (D @ B) < 5 then fst r3 else [])),
      if length (D @ B) < 5 then snd r3 else w2)"
proof -
  have r1: "scrapeFromDuckDuckGo industry loc w = (Inr D, snd r1)"
    unfolding D_def r1_def by (rule scrapeFromDuckDuckGo_eq)
  have r2: "scrapeFromBing industry loc (snd r1) = (Inr (leads_of (fst r2)), snd r2)"
    unfolding r2_def by (rule scrapeFromBing_eq)
  show ?thesis
    unfolding strategies_def loc_def [symmetric] r1 
    by (simp add: r2 B_def w2_def r3_def split_def Let_def)
qed

lemma POST_eq:
  assumes "industry \<noteq> []"
  shows "POST (Json (Some industry) location) w =
     (NextResponse_json
        (Leads_payload (take 25 (uniqueLeads (leads_of (fst (strategies industry location w)))))
           (if length (uniqueLeads (leads_of (fst (strategies industry location w)))) > 0
            then ''web_scraping'' else ''demo''))
        200,
      snd (strategies industry location w))"
proof -
  obtain L w' where s: "strategies industry location w = (Inr L, w')"
    using strategies_eq by blast
  with assms show ?thesis
    by (simp add: POST_def POST_try_def leads_of_def Let_def)
qed

lemma POST_no_industry:
  "industry = None \<or> industry = Some [] \<Longrightarrow>
     POST (Json industry location) w =
       (NextResponse_json (Error_payload ''Industry is required'') 400, w)"
  by (auto simp: POST_def POST_try_def)

lemma POST_bad_json:
  "\<exists>msg. POST (Bad_json e) w = (NextResponse_json (Error_payload msg) 500, console_error ''Scraping error:'' w)"
  by (cases e) (simp add: POST_def POST_try_def)

lemma strategies_fields:
  "\<forall>l \<in> set (leads_of (fst (strategies industry location w))). name l \<noteq> [] \<and> url l \<noteq> []"
  using scrapeFromDuckDuckGo_fields scrapeFromBing_fields
    generateDemoLeads_names generateDemoLeads_url_nonempty
  by (simp add: strategies_eq leads_of_def) blast

lemma strategies_requests:
  "requests (snd (strategies industry location w)) =
     requests w @ [duckduckgo_searchUrl industry (or_empty location)] @
       (if length (leads_of (fst (scrapeFromDuckDuckGo industry (or_empty location) w))) < 10
        then [bing_searchUrl industry (or_empty location)] else [])"
  by (simp add: strategies_eq generateDemoLeads_world scrapeFromBing_world
      scrapeFromDuckDuckGo_world)

lemma strategies_random: "random (snd (strategies industry location w)) = random w"
  by (simp add: strategies_eq generateDemoLeads_world scrapeFromBing_world
      scrapeFromDuckDuckGo_world)

lemma first_occurrences_distinct_id: "distinct xs \<Longrightarrow> first_occurrences xs = xs"
  by (induction xs) (simp_all add: removeAll_id)

lemma uniqueLeads_distinct_id:
  assumes "distinct (map url ls)"
  shows "uniqueLeads ls = ls"
proof (rule nth_equalityI)
  have urls: "map url (uniqueLeads ls) = map url ls"
    using assms by (simp add: uniqueLeads_urls first_occurrences_distinct_id)
  then show len: "length (uniqueLeads ls) = length ls"
    using length_map by metis
  fix i assume i: "i < length (uniqueLeads ls)"
  then have "uniqueLeads ls ! i \<in> set ls"
    using uniqueLeads_subset nth_mem by blast
  then obtain j where j: "j < length ls" and eq: "uniqueLeads ls ! i = ls ! j"
    by (auto simp: in_set_conv_nth)
  have "url (ls ! j) = map url (uniqueLeads ls) ! i"
    using i eq by simp
  also have "\<dots> = map url ls ! i" by (simp only: urls)
  finally have "map url ls ! j = map url ls ! i"
    using i j len by simp
  moreover have "j < length (map url ls)" "i < length (map url ls)"
    using i j len by simp_all
  ultimately have "j = i"
    using assms nth_eq_iff_index_eq by blast
  with eq show "uniqueLeads ls ! i = ls ! i" by simp
qed

lemma uniqueLeads_nonempty: "ls \<noteq> [] \<Longrightarrow> uniqueLeads ls \<noteq> []"
proof -
  assume "ls \<noteq> []"
  then have "set (map url (uniqueLeads ls)) \<noteq> {}"
    by (simp add: uniqueLeads_urls first_occurrences_set)
  then show ?thesis by auto
qed

lemma random_ok_same: "random w' = random w \<Longrightarrow> random_ok w \<Longrightarrow> random_ok w'"
  by (simp add: random_ok_def)

lemma strategies_nonempty:
  assumes "random_ok w"
  shows "leads_of (fst (strategies industry location w)) \<noteq> []"
proof -
  let ?loc = "or_empty location"
  let ?r1 = "scrapeFromDuckDuckGo industry ?loc w"
  let ?r2 = "scrapeFromBing industry ?loc (snd ?r1)"
  let ?w2 = "if length (leads_of (fst ?r1)) < 10 then snd ?r2 else snd ?r1"
  have "random ?w2 = random w"
    by (simp add: scrapeFromBing_world scrapeFromDuckDuckGo_world)
  then have "random_ok ?w2" using assms by (rule random_ok_same)
  from generateDemoLeads_count(1) [OF this, of industry ?loc]
  have "fst (generateDemoLeads industry ?loc ?w2) \<noteq> []" by auto
  then show ?thesis
    by (auto simp: strategies_eq leads_of_def)
qed

lemma quiet_world_duckduckgo:
  "leads_of (fst (scrapeFromDuckDuckGo industry location quiet_world)) = []"
  by (simp add: scrapeFromDuckDuckGo_def scrapeFromDuckDuckGo_try_def fetch_url_def
      quiet_world_def leads_of_def)

lemma quiet_world_bing:
  "http w = http quiet_world \<Longrightarrow> leads_of (fst (scrapeFromBing industry location w)) = []"
  by (simp add: scrapeFromBing_def scrapeFromBing_try_def fetch_url_def
      quiet_world_def leads_of_def)

lemma ten_results_duckduckgo:
  "leads_of (fst (scrapeFromDuckDuckGo industry location ten_results_world)) =
     replicate 10 \<lparr>name = ''Iron Gym'', url = ''https://irongym.example'',
        description = ''Call 555-123-4567'', contact = Some ''555-123-4567''\<rparr>"
proof -
  have push: "duckduckgo_push \<lparr>title_text = ''Iron Gym'', href = Some ''irongym.example'',
        snippet_text = ''Call 555-123-4567''\<rparr> =
      [\<lparr>name = ''Iron Gym'', url = ''https://irongym.example'',
        description = ''Call 555-123-4567'', contact = Some ''555-123-4567''\<rparr>]"
    by code_simp
  have "duckduckgo_each 0 (replicate 10 \<lparr>title_text = ''Iron Gym'', href = Some ''irongym.example'',
        snippet_text = ''Call 555-123-4567''\<rparr>) [] =
     replicate 10 \<lparr>name = ''Iron Gym'', url = ''https://irongym.example'',
        description = ''Call 555-123-4567'', contact = Some ''555-123-4567''\<rparr>"
    by (simp add: push eval_nat_numeral)
  then show ?thesis
    by (simp add: scrapeFromDuckDuckGo_def scrapeFromDuckDuckGo_try_def fetch_url_def
      ten_results_world_def leads_of_def)
qed

lemma gym_urls:
  "duckduckgo_searchUrl ''gym'' [] = ''https://html.duckduckgo.com/html/?q=gym''"
  "bing_searchUrl ''gym'' [] = ''https://www.bing.com/search?q=gym''"
  by code_simp+

subsection \<open>The response of \<open>POST\<close>\<close>

lemma leads_of_Inr: "leads_of (Inr ls) = ls"
  by (simp add: leads_of_def)

text \<open>
  C1. Every run of \<open>POST\<close> that answers with leads returns at most 25 of them, and
  every returned lead has a non-empty name and a non-empty url.
\<close>

theorem successful_run_bounded:
  assumes "POST req w = (NextResponse_json (Leads_payload ls src) st, w')"
  shows "length ls \<le> 25 \<and> (\<forall>l \<in> set ls. name l \<noteq> [] \<and> url l \<noteq> [])"
proof (cases req)
  case (Bad_json e)
  with assms POST_bad_json [of e w] show ?thesis by auto
next
  case (Json industry location)
  show ?thesis
  proof (cases "industry = None \<or> industry = Some []")
    case True
    from POST_no_industry [OF this, of location w] assms Json show ?thesis by simp
  next
    case False
    then obtain i where i: "industry = Some i" "i \<noteq> []" by auto
    let ?L = "leads_of (fst (strategies i location w))"
    from POST_eq [OF i(2), of location w] assms Json i(1)
    have ls: "ls = take 25 (uniqueLeads ?L)" by simp
    then have "set ls \<subseteq> set ?L"
      using set_take_subset [of 25 "uniqueLeads ?L"] uniqueLeads_subset [of ?L] by blast
    with strategies_fields [of i location w] ls show ?thesis by auto
  qed
qed

theorem successful_run_bounded_witness:
  "POST (Json (Some ''gym'') None) ten_results_world =
     (NextResponse_json
        (Leads_payload
           [\<lparr>name = ''Iron Gym'', url = ''https://irongym.example'',
             description = ''Call 555-123-4567'', contact = Some ''555-123-4567''\<rparr>]
           ''web_scraping'')
        200,
      snd (strategies ''gym'' None ten_results_world))
   \<and> length [\<lparr>name = ''Iron Gym'', url = ''https://irongym.example'',
               description = ''Call 555-123-4567'', contact = Some ''555-123-4567''\<rparr>] \<le> 25
   \<and> list_all (\<lambda>l. name l \<noteq> [] \<and> url l \<noteq> [])
        [\<lparr>name = ''Iron Gym'', url = ''https://irongym.example'',
          description = ''Call 555-123-4567'', contact = Some ''555-123-4567''\<rparr>]"
proof -
  let ?l = "\<lparr>name = ''Iron Gym'', url = ''https://irongym.example'',
             description = ''Call 555-123-4567'', contact = Some ''555-123-4567''\<rparr>"
  have L: "leads_of (fst (strategies ''gym'' None ten_results_world)) = replicate 10 ?l"
    by (simp add: strategies_eq leads_of_Inr or_empty_def ten_results_duckduckgo)
  have u: "uniqueLeads (replicate 10 ?l) = [?l]"
    by (simp add: uniqueLeads_def new_Map_def eval_nat_numeral)
  have run: "POST (Json (Some ''gym'') None) ten_results_world =
     (NextResponse_json (Leads_payload [?l] ''web_scraping'') 200,
      snd (strategies ''gym'' None ten_results_world))"
    by (simp add: POST_eq L u)
  from successful_run_bounded [OF run] run show ?thesis by simp
qed

lemma strategies_drawn:
  fixes industry :: string and location :: "string option" and w :: world
  defines "loc \<equiv> or_empty location"
  defines "r1 \<equiv> scrapeFromDuckDuckGo industry loc w"
  defines "D \<equiv> leads_of (fst r1)"
  defines "r2 \<equiv> scrapeFromBing industry loc (snd r1)"
  defines "B \<equiv> (if length D < 10 then leads_of (fst r2) else [])"
  shows "drawn w < drawn (snd (strategies industry location w)) \<longleftrightarrow> length (D @ B) < 5"
  unfolding loc_def r1_def D_def r2_def B_def
  by (simp add: strategies_eq generateDemoLeads_world scrapeFromBing_world
      scrapeFromDuckDuckGo_world)

text \<open>
  C3. For a non-empty industry the working sequence is the leads \<open>D\<close> of DuckDuckGo,
  then the leads \<open>B\<close> of Bing, then the synthetic leads \<open>S\<close>. Bing is fetched exactly
  when \<open>D\<close> has fewer than 10 leads (the requests made are the DuckDuckGo address,
  followed by the Bing address in that case only), and the generator runs exactly when
  \<open>D\<close> and \<open>B\<close> together have fewer than 5 leads (it is the only consumer of random
  draws, and it draws at least once). The response holds the first 25 leads of the
  deduplicated working sequence.
\<close>

theorem staged_source_policy:
  fixes industry :: string and location :: "string option" and w :: world
  defines "loc \<equiv> or_empty location"
  defines "r1 \<equiv> scrapeFromDuckDuckGo industry loc w"
  defines "D \<equiv> leads_of (fst r1)"
  defines "r2 \<equiv> scrapeFromBing industry loc (snd r1)"
  defines "B \<equiv> (if length D < 10 then leads_of (fst r2) else [])"
  defines "r3 \<equiv> generateDemoLeads industry loc (if length D < 10 then snd r2 else snd r1)"
  defines "S \<equiv> (if length (D @ B) < 5 then fst r3 else [])"
  assumes ne: "industry \<noteq> []"
  shows "fst (strategies industry location w) = Inr (D @ B @ S)
    \<and> payload_leads (response_payload (fst (POST (Json (Some industry) location) w)))
        = take 25 (uniqueLeads (D @ B @ S))
    \<and> requests (snd (POST (Json (Some industry) location) w))
        = requests w @ [duckduckgo_searchUrl industry loc]
            @ (if length D < 10 then [bing_searchUrl industry loc] else [])
    \<and> (drawn w < drawn (snd (POST (Json (Some industry) location) w))
        \<longleftrightarrow> length (D @ B) < 5)"
proof -
  have s: "fst (strategies industry location w) = Inr (D @ B @ S)"
    unfolding loc_def r1_def D_def r2_def B_def r3_def S_def
    by (simp add: strategies_eq)
  have p: "POST (Json (Some industry) location) w =
     (NextResponse_json
        (Leads_payload (take 25 (uniqueLeads (D @ B @ S)))
           (if length (uniqueLeads (D @ B @ S)) > 0 then ''web_scraping'' else ''demo''))
        200,
      snd (strategies industry location w))"
    using POST_eq [OF ne, of location w] by (simp only: s leads_of_Inr)
  have r: "requests (snd (strategies industry location w))
        = requests w @ [duckduckgo_searchUrl industry loc]
            @ (if length D < 10 then [bing_searchUrl industry loc] else [])"
    unfolding loc_def r1_def D_def by (rule strategies_requests)
  have d: "drawn w < drawn (snd (strategies industry location w)) \<longleftrightarrow> length (D @ B) < 5"
    unfolding loc_def r1_def D_def r2_def B_def by (rule strategies_drawn)
  from s r d show ?thesis by (simp only: p fst_conv snd_conv response.sel payload.sel simp_thms)
qed

theorem staged_source_policy_witness:
  "''gym'' \<noteq> []
   \<and> requests (snd (POST (Json (Some ''gym'') None) quiet_world))
       = [''https://html.duckduckgo.com/html/?q=gym'', ''https://www.bing.com/search?q=gym'']
   \<and> drawn quiet_world < drawn (snd (POST (Json (Some ''gym'') None) quiet_world))
   \<and> requests (snd (POST (Json (Some ''gym'') None) ten_results_world))
       = [''https://html.duckduckgo.com/html/?q=gym'']
   \<and> \<not> drawn ten_results_world < drawn (snd (POST (Json (Some ''gym'') None) ten_results_world))"
proof -
  have g: "''gym'' \<noteq> []" by simp
  have q: "http (snd (scrapeFromDuckDuckGo ''gym'' [] quiet_world)) = http quiet_world"
    by (rule scrapeFromDuckDuckGo_world)
  have rq: "requests quiet_world = []" and rt: "requests ten_results_world = []"
    by (simp_all add: quiet_world_def ten_results_world_def)
  from staged_source_policy [OF g, of None quiet_world]
    staged_source_policy [OF g, of None ten_results_world]
  show ?thesis
    by (simp add: or_empty_def quiet_world_duckduckgo quiet_world_bing [OF q]
        ten_results_duckduckgo gym_urls rq rt)
qed

lemma POST_source:
  assumes "industry \<noteq> []" and "random_ok w"
  shows "POST (Json (Some industry) location) w =
     (NextResponse_json
        (Leads_payload (take 25 (uniqueLeads (leads_of (fst (strategies industry location w)))))
           ''web_scraping'')
        200,
      snd (strategies industry location w))"
proof -
  from strategies_nonempty [OF assms(2)]
  have "uniqueLeads (leads_of (fst (strategies industry location w))) \<noteq> []"
    by (rule uniqueLeads_nonempty)
  then show ?thesis by (simp add: POST_eq [OF assms(1)])
qed

text \<open>
  C6. For every request with a non-empty industry (and draws of \<open>Math.random()\<close> in
  their range) the answer has status 200 and the source tag \<open>web_scraping\<close>; the tag
  \<open>demo\<close> is never produced, because the deduplicated sequence is never empty: the
  generator, which runs whenever fewer than 5 leads were gathered, yields at least 8
  leads with pairwise distinct, non-empty urls.
\<close>

theorem source_always_web_scraping:
  assumes "industry \<noteq> []" and "random_ok w"
  shows "response_status (fst (POST (Json (Some industry) location) w)) = 200
    \<and> payload_source (response_payload (fst (POST (Json (Some industry) location) w)))
        = ''web_scraping''
    \<and> uniqueLeads (leads_of (fst (strategies industry location w))) \<noteq> []
    \<and> 8 \<le> length (fst (generateDemoLeads industry loc w))
    \<and> distinct (map url (fst (generateDemoLeads industry loc w)))
    \<and> list_all (\<lambda>l. url l \<noteq> []) (fst (generateDemoLeads industry loc w))"
proof -
  have "uniqueLeads (leads_of (fst (strategies industry location w))) \<noteq> []"
    using strategies_nonempty [OF assms(2)] by (rule uniqueLeads_nonempty)
  moreover have "8 \<le> length (fst (generateDemoLeads industry loc w))"
    using assms(2) by (rule generateDemoLeads_count)
  moreover have "distinct (map url (fst (generateDemoLeads industry loc w)))"
    by (rule generateDemoLeads_distinct)
  moreover have "list_all (\<lambda>l. url l \<noteq> []) (fst (generateDemoLeads industry loc w))"
    using generateDemoLeads_url_nonempty by (simp add: list_all_iff)
  ultimately show ?thesis by (simp add: POST_source [OF assms])
qed

lemma quiet_world_random_ok: "random_ok quiet_world"
  by (simp add: random_ok_def quiet_world_def)

theorem source_always_web_scraping_witness:
  "''hotel'' \<noteq> [] \<and> random_ok quiet_world
   \<and> response_status (fst (POST (Json (Some ''hotel'') (Some ''Oslo'')) quiet_world)) = 200
   \<and> payload_source (response_payload (fst (POST (Json (Some ''hotel'') (Some ''Oslo'')) quiet_world)))
        = ''web_scraping''
   \<and> 8 \<le> length (fst (generateDemoLeads ''hotel'' ''Oslo'' quiet_world))"
  using source_always_web_scraping [of "''hotel''" quiet_world "Some ''Oslo''" "''Oslo''"]
    quiet_world_random_ok
  by simp

lemma synthetic_only_run:
  fixes industry :: string and location :: "string option" and w :: world
  defines "loc \<equiv> or_empty location"
  defines "w1 \<equiv> snd (scrapeFromDuckDuckGo industry loc w)"
  defines "w2 \<equiv> snd (scrapeFromBing industry loc w1)"
  assumes ne: "industry \<noteq> []" and ok: "random_ok w"
    and d: "leads_of (fst (scrapeFromDuckDuckGo industry loc w)) = []"
    and b: "leads_of (fst (scrapeFromBing industry loc w1)) = []"
  shows "payload_source (response_payload (fst (POST (Json (Some industry) location) w)))
           = ''web_scraping''"
    and "payload_leads (response_payload (fst (POST (Json (Some industry) location) w)))
           = fst (generateDemoLeads industry loc w2)"
    and "8 \<le> length (fst (generateDemoLeads industry loc w2))"
    and "length (fst (generateDemoLeads industry loc w2)) \<le> 15"
    and "map url (fst (generateDemoLeads industry loc w2))
           = map (demo_url industry) [0..<length (fst (generateDemoLeads industry loc w2))]"
proof -
  let ?G = "fst (generateDemoLeads industry loc w2)"
  have "random w2 = random w"
    unfolding w2_def w1_def by (simp add: scrapeFromBing_world scrapeFromDuckDuckGo_world)
  then have ok2: "random_ok w2" using ok by (rule random_ok_same)
  from generateDemoLeads_count [OF ok2, of industry loc]
  show len: "8 \<le> length ?G" "length ?G \<le> 15" .
  have L: "leads_of (fst (strategies industry location w)) = ?G"
    using d b unfolding w2_def w1_def loc_def
    by (simp add: strategies_eq leads_of_Inr)
  have "uniqueLeads ?G = ?G"
    using generateDemoLeads_distinct by (rule uniqueLeads_distinct_id)
  with len(2) have "take 25 (uniqueLeads ?G) = ?G" by simp
  with POST_source [OF ne ok, of location]
  show "payload_source (response_payload (fst (POST (Json (Some industry) location) w)))
           = ''web_scraping''"
    and "payload_leads (response_payload (fst (POST (Json (Some industry) location) w))) = ?G"
    by (simp_all add: L)
  show "map url ?G = map (demo_url industry) [0..<length ?G]"
    unfolding generateDemoLeads_length by (rule generateDemoLeads_urls)
qed

lemma restaurant_urls:
  "map (demo_url ''restaurant'') [0..<8] =
     [''https://example-restaurant-0.com'', ''https://example-restaurant-1.com'',
      ''https://example-restaurant-2.com'', ''https://example-restaurant-3.com'',
      ''https://example-restaurant-4.com'', ''https://example-restaurant-5.com'',
      ''https://example-restaurant-6.com'', ''https://example-restaurant-7.com'']"
  by code_simp

lemma blank_urls:
  "duckduckgo_searchUrl ''  '' [] = ''https://html.duckduckgo.com/html/?q=%20%20''"
  "bing_searchUrl ''  '' [] = ''https://www.bing.com/search?q=%20%20''"
  by code_simp+

text \<open>
  C2. The claim asks that an empty or whitespace-only industry is refused with status 400
  and \<open>Industry is required\<close> before any fetch. The guard of \<open>POST\<close> refuses a missing
  or empty industry only. An industry of two blanks passes it: both search engines are
  fetched and the answer has status 200, whereas the form in \<open>page.tsx\<close> refuses such an
  industry by testing \<open>industry.trim()\<close>.
\<close>

theorem whitespace_industry_is_scraped:
  "response_status (fst (POST (Json (Some ''  '') None) quiet_world)) = 200
   \<and> requests (snd (POST (Json (Some ''  '') None) quiet_world))
       = [''https://html.duckduckgo.com/html/?q=%20%20'', ''https://www.bing.com/search?q=%20%20'']
   \<and> POST (Json (Some []) None) quiet_world
       = (NextResponse_json (Error_payload ''Industry is required'') 400, quiet_world)"
proof -
  have ne: "''  '' \<noteq> []" by simp
  have rq: "requests quiet_world = []" by (simp add: quiet_world_def)
  have "requests (snd (strategies ''  '' None quiet_world))
       = [''https://html.duckduckgo.com/html/?q=%20%20'', ''https://www.bing.com/search?q=%20%20'']"
    by (simp add: strategies_requests or_empty_def quiet_world_duckduckgo blank_urls rq)
  then show ?thesis
    by (simp add: POST_eq [OF ne] POST_no_industry)
qed

text \<open>
  C5. The claim asks for the source tag \<open>demo\<close> when the industry is \<open>restaurant\<close>, the
  location is empty and both search engines yield no lead. In that run (here with every
  draw 0, hence 8 leads) all leads are synthetic, with the urls
  \<open>https://example-restaurant-0.com\<close> to \<open>https://example-restaurant-7.com\<close>, but the
  tag is \<open>web_scraping\<close>: the tag is chosen on the deduplicated sequence, which already
  holds the synthetic leads, so the branch \<open>demo\<close> is never taken.
\<close>

theorem all_synthetic_run_tagged_web_scraping:
  "payload_source (response_payload (fst (POST (Json (Some ''restaurant'') (Some [])) quiet_world)))
     = ''web_scraping''
   \<and> map url (payload_leads (response_payload
         (fst (POST (Json (Some ''restaurant'') (Some [])) quiet_world))))
     = [''https://example-restaurant-0.com'', ''https://example-restaurant-1.com'',
        ''https://example-restaurant-2.com'', ''https://example-restaurant-3.com'',
        ''https://example-restaurant-4.com'', ''https://example-restaurant-5.com'',
        ''https://example-restaurant-6.com'', ''https://example-restaurant-7.com'']"
proof -
  let ?w1 = "snd (scrapeFromDuckDuckGo ''restaurant'' [] quiet_world)"
  let ?w2 = "snd (scrapeFromBing ''restaurant'' [] ?w1)"
  have ne: "''restaurant'' \<noteq> []" by simp
  have h: "http ?w1 = http quiet_world" by (rule scrapeFromDuckDuckGo_world)
  have r: "random ?w2 = random quiet_world"
    by (simp add: scrapeFromBing_world scrapeFromDuckDuckGo_world)
  have n: "length (fst (generateDemoLeads ''restaurant'' [] ?w2)) = 8"
    unfolding generateDemoLeads_length r by (simp add: quiet_world_def)
  have e: "or_empty (Some []) = []" by (simp add: or_empty_def)
  note run = synthetic_only_run [OF ne quiet_world_random_ok, of "Some []", unfolded e,
      OF quiet_world_duckduckgo quiet_world_bing [OF h]]
  from run(1) run(2) run(5) show ?thesis
    by (simp only: n restaurant_urls simp_thms)
qed

subsection \<open>Failures and links in the adapters\<close>

lemma scrapeFromDuckDuckGo_failed:
  assumes "failed (http w (duckduckgo_searchUrl industry location))"
  shows "fst (scrapeFromDuckDuckGo industry location w) = Inr []"
proof (cases "http w (duckduckgo_searchUrl industry location)")
  case (Fetch_throws e)
  then show ?thesis
    by (simp add: scrapeFromDuckDuckGo_def scrapeFromDuckDuckGo_try_def fetch_url_def)
next
  case (Response ok b)
  with assms show ?thesis
    by (cases b)
      (simp_all add: scrapeFromDuckDuckGo_def scrapeFromDuckDuckGo_try_def fetch_url_def)
qed

lemma scrapeFromBing_failed:
  assumes "failed (http w (bing_searchUrl industry location))"
  shows "fst (scrapeFromBing industry location w) = Inr []"
proof (cases "http w (bing_searchUrl industry location)")
  case (Fetch_throws e)
  then show ?thesis
    by (simp add: scrapeFromBing_def scrapeFromBing_try_def fetch_url_def)
next
  case (Response ok b)
  with assms show ?thesis
    by (cases b)
      (simp_all add: scrapeFromBing_def scrapeFromBing_try_def fetch_url_def)
qed

text \<open>
  C7. Neither adapter raises: each returns a sequence of leads for every industry,
  location and world, and returns the empty sequence whenever its fetch throws, the
  response has a non-success status, or reading or parsing the body throws. (The one
  other throw inside the \<open>try\<close> block, \<open>encodeURIComponent\<close> on a lone surrogate, has no
  counterpart among byte strings.)
\<close>

theorem adapters_never_raise:
  "(\<exists>leads. fst (scrapeFromDuckDuckGo industry location w) = Inr leads)
   \<and> (\<exists>leads. fst (scrapeFromBing industry location w) = Inr leads)
   \<and> (failed (http w (duckduckgo_searchUrl industry location))
        \<longrightarrow> fst (scrapeFromDuckDuckGo industry location w) = Inr [])
   \<and> (failed (http w (bing_searchUrl industry location))
        \<longrightarrow> fst (scrapeFromBing industry location w) = Inr [])"
  using scrapeFromDuckDuckGo_returns scrapeFromBing_returns
    scrapeFromDuckDuckGo_failed scrapeFromBing_failed by blast

theorem adapters_never_raise_witness:
  "failed (http failing_world (duckduckgo_searchUrl ''plumber'' ''Oslo''))
   \<and> failed (http failing_world (bing_searchUrl ''plumber'' ''Oslo''))
   \<and> fst (scrapeFromDuckDuckGo ''plumber'' ''Oslo'' failing_world) = Inr []
   \<and> fst (scrapeFromBing ''plumber'' ''Oslo'' failing_world) = Inr []"
proof -
  have d: "failed (http failing_world (duckduckgo_searchUrl ''plumber'' ''Oslo''))"
    by code_simp
  have b: "failed (http failing_world (bing_searchUrl ''plumber'' ''Oslo''))"
    by code_simp
  from adapters_never_raise [of "''plumber''" "''Oslo''" failing_world] d b
  show ?thesis by blast
qed



text \<open>
  C9. The claim asks that every lead of an adapter stores an absolute address. The
  DuckDuckGo adapter prefixes \<open>https://\<close> to a link that does not start with \<open>http\<close>
  (lemma \<open>scrapeFromDuckDuckGo_absolute\<close>); the Bing adapter stores the link as it
  is, so a result whose link is \<open>/local/acme\<close> becomes a lead with that relative url.
\<close>

theorem bing_keeps_relative_link:
  "fst (scrapeFromBing ''plumber'' ''''
          (quiet_world\<lparr>http := \<lambda>u. Response True (Html relative_link_page)\<rparr>))
     = Inr [\<lparr>name = ''Acme Plumbing'', url = ''/local/acme'',
              description = ''No description available'', contact = None\<rparr>]
   \<and> \<not> startsWith ''/local/acme'' ''http''
   \<and> fst (scrapeFromDuckDuckGo ''plumber'' ''''
          (quiet_world\<lparr>http := \<lambda>u. Response True (Html relative_link_page)\<rparr>))
     = Inr [\<lparr>name = ''Acme Plumbing'', url = ''https:///local/acme'',
              description = ''No description available'', contact = None\<rparr>]"
  by code_simp

end
